theory Spec2Isabelle
  imports Main "HOL-Library.Word" "HOL-Library.Sublist"
begin

section \<open>TextContainer: a text with inline formatting elements\<close>

text \<open>
  Source: \<^verbatim>\<open>src/tree/values/nodes/TextContainer.js\<close>.

  The class stores a plain text and an array of formatting elements. Its constructor runs
  \<^verbatim>\<open>_constrainFormatElementPositionsToEnd\<close> once for \<^verbatim>\<open>"startIndex"\<close> and once for
  \<^verbatim>\<open>"endIndex"\<close>. Each run looks up, with \<^verbatim>\<open>Array.prototype.find\<close>, the first formatting
  element whose position is larger than \<^verbatim>\<open>text.length\<close>, assigns \<^verbatim>\<open>text.length\<close> to that
  position of the element found, and calls \<^verbatim>\<open>console.warn\<close>.
\<close>

subsection \<open>Data model\<close>

text \<open>
  A JavaScript string is a sequence of UTF-16 code units and \<^verbatim>\<open>.length\<close> counts the units.
  \<open>ascii\<close> embeds the string literals of the source, which are all ASCII.
\<close>

type_synonym js_string = "16 word list"

definition ascii :: "string \<Rightarrow> js_string" where
  "ascii s = map of_char s"

text \<open>
  Modelled from the spec: the class \<^verbatim>\<open>FormattingElement\<close> is declared in another file of the
  repository. Its fields are those of the spec's formatting span: \<^verbatim>\<open>tag\<close>, the integer offsets
  \<^verbatim>\<open>startIndex\<close> and \<^verbatim>\<open>endIndex\<close>, of either sign and of any magnitude, and the opaque
  \<^verbatim>\<open>attributes\<close>. The source reads \<^verbatim>\<open>tag\<close> and reads and writes the two offsets.
\<close>

record FormattingElement =
  tag :: js_string
  startIndex :: int
  endIndex :: int
  attributes :: "js_string \<rightharpoonup> js_string"

text \<open>
  The array \<^verbatim>\<open>formatting\<close> holds references to objects, and the assignment
  \<^verbatim>\<open>elem[ position ] = ...\<close> mutates the object that \<^verbatim>\<open>find\<close> returned, whichever entries of
  the array refer to it. So the objects live in a store, and the array is a list of references.
  Every reference denotes an object (JavaScript has no dangling references).
\<close>

type_synonym ref = nat

type_synonym store = "ref \<Rightarrow> FormattingElement"

record TextContainer =
  text' :: js_string
  formatting :: "ref list"

text \<open>
  What a call can change outside the container itself: the formatting objects of the store
  and the messages handed to \<^verbatim>\<open>console.warn\<close> (oldest first).
\<close>

record world =
  heap :: store
  console :: "js_string list"

text \<open>The parameter \<^verbatim>\<open>position\<close>, of JSDoc type \<^verbatim>\<open>"startIndex"|"endIndex"\<close>.\<close>

datatype position = StartIndex | EndIndex

fun position_name :: "position \<Rightarrow> js_string" where
  "position_name StartIndex = ascii ''startIndex''"
| "position_name EndIndex = ascii ''endIndex''"

text \<open>The property read \<^verbatim>\<open>format[ position ]\<close> and the property write \<^verbatim>\<open>elem[ position ] = v\<close>.\<close>

fun get_position :: "position \<Rightarrow> FormattingElement \<Rightarrow> int" where
  "get_position StartIndex format = startIndex format"
| "get_position EndIndex format = endIndex format"

fun set_position :: "position \<Rightarrow> int \<Rightarrow> FormattingElement \<Rightarrow> FormattingElement" where
  "set_position StartIndex v elem = elem\<lparr>startIndex := v\<rparr>"
| "set_position EndIndex v elem = elem\<lparr>endIndex := v\<rparr>"

subsection \<open>Operations\<close>

text \<open>
  The template literal of the warning:
  \<^verbatim>\<open>'${elem.tag}' element's ${position} position larger than text. It has been set to the end of the text instead.\<close>
\<close>

definition warning_message :: "js_string \<Rightarrow> position \<Rightarrow> js_string" where
  "warning_message t position =
     ascii [CHR 0x27] @ t @ ascii (CHR 0x27 # '' element's '') @ position_name position
       @ ascii '' position larger than text. It has been set to the end of the text instead.''"

text \<open>
  \<^verbatim>\<open>_constrainFormatElementPositionsToEnd( position )\<close>. \<open>List.find\<close> is
  \<^verbatim>\<open>Array.prototype.find\<close>: the first entry that satisfies the predicate, or nothing. An
  object reference is truthy, so \<^verbatim>\<open>if ( elem )\<close> tests exactly whether one was found.
\<close>

definition constrainFormatElementPositionsToEnd :: "position \<Rightarrow> TextContainer \<Rightarrow> world \<Rightarrow> world" where
  "constrainFormatElementPositionsToEnd position this w =
     (case List.find (\<lambda>format. get_position position (heap w format) > int (length (text' this)))
             (formatting this) of
        None \<Rightarrow> w
      | Some elem \<Rightarrow>
          (let w1 = w\<lparr>heap := (heap w)(elem := set_position position (int (length (text' this))) (heap w elem))\<rparr>
           in w1\<lparr>console := console w1 @ [warning_message (tag (heap w1 elem)) position]\<rparr>))"

text \<open>The constructor: the new container and the world after the two passes.\<close>

definition TextContainer_new :: "js_string \<Rightarrow> ref list \<Rightarrow> world \<Rightarrow> TextContainer \<times> world" where
  "TextContainer_new text_in formatting_in w =
     (let this = \<lparr>text' = text_in, formatting = formatting_in\<rparr>;
          w1 = constrainFormatElementPositionsToEnd StartIndex this w;
          w2 = constrainFormatElementPositionsToEnd EndIndex this w1
      in (this, w2))"

subsection \<open>Notions used in the statements\<close>

text \<open>The position of span \<open>r\<close> lies beyond the end of text \<open>T\<close>.\<close>

definition exceeds :: "position \<Rightarrow> js_string \<Rightarrow> store \<Rightarrow> ref \<Rightarrow> bool" where
  "exceeds p T h r = (int (length T) < get_position p (h r))"

text \<open>The first span of the collection, in collection order, whose position exceeds the text.\<close>

definition first_exceeding :: "position \<Rightarrow> js_string \<Rightarrow> ref list \<Rightarrow> store \<Rightarrow> ref option" where
  "first_exceeding p T fmt h = List.find (exceeds p T h) fmt"

text \<open>The warning that a pass emits: none, or the one for the span it corrected.\<close>

definition warnings_for :: "position \<Rightarrow> store \<Rightarrow> ref option \<Rightarrow> js_string list" where
  "warnings_for p h fo = (case fo of None \<Rightarrow> [] | Some r \<Rightarrow> [warning_message (tag (h r)) p])"

text \<open>The store and the console after construction, and the messages that construction added.\<close>

definition heap_after :: "js_string \<Rightarrow> ref list \<Rightarrow> world \<Rightarrow> store" where
  "heap_after T fmt w = heap (snd (TextContainer_new T fmt w))"

definition console_after :: "js_string \<Rightarrow> ref list \<Rightarrow> world \<Rightarrow> js_string list" where
  "console_after T fmt w = console (snd (TextContainer_new T fmt w))"

definition diagnostics :: "js_string \<Rightarrow> ref list \<Rightarrow> world \<Rightarrow> js_string list" where
  "diagnostics T fmt w = drop (length (console w)) (console_after T fmt w)"

text \<open>
  Construction corrected position \<open>p\<close> of span \<open>r\<close>: the value after construction is not the
  value before.
\<close>

definition corrected :: "position \<Rightarrow> js_string \<Rightarrow> ref list \<Rightarrow> world \<Rightarrow> ref \<Rightarrow> bool" where
  "corrected p T fmt w r = (get_position p (heap_after T fmt w r) \<noteq> get_position p (heap w r))"

subsection \<open>Concrete inputs\<close>

text \<open>
  A span without attributes, the store that holds the given spans at the references
  \<open>0, 1, ...\<close> in this order, and the world with that store and nothing on the console yet.
\<close>

definition span :: "string \<Rightarrow> int \<Rightarrow> int \<Rightarrow> FormattingElement" where
  "span t s e = \<lparr>tag = ascii t, startIndex = s, endIndex = e, attributes = Map.empty\<rparr>"

definition store_of :: "FormattingElement list \<Rightarrow> store" where
  "store_of es r = (if r < length es then es ! r else span [] 0 0)"

definition world_of :: "FormattingElement list \<Rightarrow> world" where
  "world_of es = \<lparr>heap = store_of es, console = []\<rparr>"

text \<open>The text and the element of the scenario \<^verbatim>\<open>This text is <strong id="elem-id">very strong</strong>.\<close>\<close>

definition scenario_text :: js_string where
  "scenario_text = ascii ''This text is very strong.''"

definition scenario_strong :: FormattingElement where
  "scenario_strong =
     \<lparr>tag = ascii ''strong'', startIndex = 13, endIndex = 99,
      attributes = [ascii ''id'' \<mapsto> ascii ''elem-id'']\<rparr>"

section \<open>Basic facts\<close>

lemma get_set_position:
  "get_position q (set_position p v e) = (if p = q then v else get_position q e)"
  by (cases p; cases q) simp_all

lemma tag_set_position [simp]: "tag (set_position p v e) = tag e"
  by (cases p) simp_all

lemma attributes_set_position [simp]: "attributes (set_position p v e) = attributes e"
  by (cases p) simp_all

lemma first_exceeding_None:
  "first_exceeding p T fmt h = None \<longleftrightarrow> (\<forall>r\<in>set fmt. \<not> exceeds p T h r)"
  by (auto simp: first_exceeding_def find_None_iff)

lemma first_exceeding_Some:
  "first_exceeding p T fmt h = Some r \<longleftrightarrow>
     (\<exists>i<length fmt. fmt ! i = r \<and> exceeds p T h r \<and> (\<forall>j<i. \<not> exceeds p T h (fmt ! j)))"
  by (auto simp: first_exceeding_def find_Some_iff)

lemma first_exceeding_SomeD:
  "first_exceeding p T fmt h = Some r \<Longrightarrow> r \<in> set fmt \<and> exceeds p T h r"
  by (auto simp: first_exceeding_Some)

lemma first_exceeding_cong:
  "(\<And>r. r \<in> set fmt \<Longrightarrow> exceeds p T h r = exceeds p T h' r) \<Longrightarrow>
     first_exceeding p T fmt h = first_exceeding p T fmt h'"
  unfolding first_exceeding_def by (rule find_cong) simp_all

text \<open>One pass, in terms of the first offender.\<close>

lemma constrain_eq:
  "constrainFormatElementPositionsToEnd p this w =
     (case first_exceeding p (text' this) (formatting this) (heap w) of
        None \<Rightarrow> w
      | Some r \<Rightarrow> w\<lparr>heap := (heap w)(r := set_position p (int (length (text' this))) (heap w r)),
                    console := console w @ [warning_message (tag (heap w r)) p]\<rparr>)"
proof -
  have "(\<lambda>format. int (length (text' this)) < get_position p (heap w format))
          = exceeds p (text' this) (heap w)"
    by (simp add: exceeds_def fun_eq_iff)
  then show ?thesis
    by (simp add: constrainFormatElementPositionsToEnd_def first_exceeding_def Let_def
          split: option.split)
qed

lemma heap_constrain:
  "heap (constrainFormatElementPositionsToEnd p this w) r =
     (if first_exceeding p (text' this) (formatting this) (heap w) = Some r
      then set_position p (int (length (text' this))) (heap w r) else heap w r)"
  by (auto simp: constrain_eq split: option.split)

lemma console_constrain:
  "console (constrainFormatElementPositionsToEnd p this w) =
     console w @ warnings_for p (heap w) (first_exceeding p (text' this) (formatting this) (heap w))"
  by (simp add: constrain_eq warnings_for_def split: option.split)

text \<open>A pass for one position leaves the other position of every span as it was.\<close>

lemma exceeds_after_other_pass:
  "p \<noteq> q \<Longrightarrow>
     exceeds q T (heap (constrainFormatElementPositionsToEnd p this w)) r = exceeds q T (heap w) r"
  by (simp add: exceeds_def heap_constrain get_set_position)

lemma first_exceeding_after_other_pass:
  "p \<noteq> q \<Longrightarrow>
     first_exceeding q T fmt (heap (constrainFormatElementPositionsToEnd p this w))
       = first_exceeding q T fmt (heap w)"
  by (rule first_exceeding_cong) (simp add: exceeds_after_other_pass)

text \<open>The constructor, in terms of the first offender of each position in the input.\<close>

lemma fst_TextContainer_new:
  "fst (TextContainer_new T fmt w) = \<lparr>text' = T, formatting = fmt\<rparr>"
  by (simp add: TextContainer_new_def Let_def)

lemma heap_after_eq:
  "heap_after T fmt w r =
     (heap w r)\<lparr>startIndex := (if first_exceeding StartIndex T fmt (heap w) = Some r
                                then int (length T) else startIndex (heap w r)),
                 endIndex := (if first_exceeding EndIndex T fmt (heap w) = Some r
                              then int (length T) else endIndex (heap w r))\<rparr>"
  by (simp add: heap_after_def TextContainer_new_def Let_def heap_constrain
        first_exceeding_after_other_pass)

lemma console_after_eq:
  "console_after T fmt w =
     console w @ warnings_for StartIndex (heap w) (first_exceeding StartIndex T fmt (heap w))
       @ warnings_for EndIndex (heap w) (first_exceeding EndIndex T fmt (heap w))"
proof -
  let ?this = "\<lparr>text' = T, formatting = fmt\<rparr>"
  let ?w1 = "constrainFormatElementPositionsToEnd StartIndex ?this w"
  have "warnings_for EndIndex (heap ?w1) fo = warnings_for EndIndex (heap w) fo" for fo
    by (cases fo) (simp_all add: warnings_for_def heap_constrain)
  then show ?thesis
    by (simp add: console_after_def TextContainer_new_def Let_def console_constrain
          first_exceeding_after_other_pass)
qed

lemma diagnostics_eq:
  "diagnostics T fmt w =
     warnings_for StartIndex (heap w) (first_exceeding StartIndex T fmt (heap w))
       @ warnings_for EndIndex (heap w) (first_exceeding EndIndex T fmt (heap w))"
  by (simp add: diagnostics_def console_after_eq)

lemma get_position_heap_after:
  "get_position p (heap_after T fmt w r) =
     (if first_exceeding p T fmt (heap w) = Some r then int (length T)
      else get_position p (heap w r))"
  by (cases p) (simp_all add: heap_after_eq)

lemma tag_heap_after: "tag (heap_after T fmt w r) = tag (heap w r)"
  by (simp add: heap_after_eq)

lemma attributes_heap_after: "attributes (heap_after T fmt w r) = attributes (heap w r)"
  by (simp add: heap_after_eq)

text \<open>A position of a span is corrected exactly when the span is the first offender there.\<close>

lemma corrected_iff:
  "corrected p T fmt w r \<longleftrightarrow> first_exceeding p T fmt (heap w) = Some r"
proof
  assume "corrected p T fmt w r"
  then show "first_exceeding p T fmt (heap w) = Some r"
    by (simp add: corrected_def get_position_heap_after split: if_splits)
next
  assume fe: "first_exceeding p T fmt (heap w) = Some r"
  then have "exceeds p T (heap w) r"
    by (simp add: first_exceeding_SomeD)
  with fe show "corrected p T fmt w r"
    by (simp add: corrected_def get_position_heap_after exceeds_def)
qed

lemma heap_after_unchanged:
  assumes "first_exceeding StartIndex T fmt (heap w) \<noteq> Some r"
      and "first_exceeding EndIndex T fmt (heap w) \<noteq> Some r"
  shows "heap_after T fmt w r = heap w r"
  using assms by (simp add: heap_after_eq)

lemma first_exceeding_least:
  assumes "i < length fmt" "exceeds p T h (fmt ! i)" "\<forall>j<i. \<not> exceeds p T h (fmt ! j)"
  shows "first_exceeding p T fmt h = Some (fmt ! i)"
  using assms by (auto simp: first_exceeding_Some)

lemma sublist_warning_message:
  "sublist t (warning_message t p)"
  "sublist (position_name p) (warning_message t p)"
  "sublist (ascii ''It has been set to the end of the text instead.'') (warning_message t p)"
proof -
  show "sublist t (warning_message t p)"
    unfolding warning_message_def by (rule sublist_appendI)
  have "warning_message t p = (ascii [CHR 0x27] @ t @ ascii (CHR 0x27 # '' element's '')) @ position_name p
       @ ascii '' position larger than text. It has been set to the end of the text instead.''"
    by (simp add: warning_message_def)
  then show "sublist (position_name p) (warning_message t p)"
    by (simp only: sublist_appendI)
  have "warning_message t p = (ascii [CHR 0x27] @ t @ ascii (CHR 0x27 # '' element's '') @ position_name p
       @ ascii '' position larger than text. '') @ ascii ''It has been set to the end of the text instead.''"
    by (simp add: warning_message_def ascii_def)
  then show "sublist (ascii ''It has been set to the end of the text instead.'') (warning_message t p)"
    by (simp only: sublist_append_leftI)
qed

text \<open>The equations that run the constructor on a concrete input.\<close>

lemmas run_defs = heap_after_def console_after_def diagnostics_def TextContainer_new_def
  constrainFormatElementPositionsToEnd_def exceeds_def world_of_def store_of_def span_def Let_def

lemma first_exceeding_unique:
  assumes "r \<in> set fmt"
      and "exceeds p T h r"
      and "\<forall>q\<in>set fmt. q \<noteq> r \<longrightarrow> \<not> exceeds p T h q"
  shows "first_exceeding p T fmt h = Some r"
proof (cases "first_exceeding p T fmt h")
  case None
  with assms(1,2) show ?thesis
    by (simp add: first_exceeding_None)
next
  case (Some r')
  then have "r' \<in> set fmt \<and> exceeds p T h r'"
    by (rule first_exceeding_SomeD)
  with assms(3) have "r' = r" by blast
  with Some show ?thesis by simp
qed

lemma first_exceeding_other_None:
  assumes "\<forall>p'. \<forall>q'\<in>set fmt. p' \<noteq> p \<longrightarrow> \<not> exceeds p' T h q'" and "p' \<noteq> p"
  shows "first_exceeding p' T fmt h = None"
  using assms by (simp add: first_exceeding_None)

lemma ex_corrected_iff:
  "(\<exists>r. corrected p T fmt w r) \<longleftrightarrow> first_exceeding p T fmt (heap w) \<noteq> None"
  by (auto simp: corrected_iff)

lemma length_warnings_for:
  "length (warnings_for p h fo) = (if fo = None then 0 else 1)"
  by (cases fo) (simp_all add: warnings_for_def)

lemma set_warnings_for:
  "m \<in> set (warnings_for p h fo) \<longleftrightarrow> (\<exists>r. fo = Some r \<and> m = warning_message (tag (h r)) p)"
  by (cases fo) (auto simp: warnings_for_def)

lemma set_diagnostics:
  "m \<in> set (diagnostics T fmt w) \<longleftrightarrow>
     (\<exists>p r. corrected p T fmt w r \<and> m = warning_message (tag (heap w r)) p)"
proof
  assume "m \<in> set (diagnostics T fmt w)"
  then show "\<exists>p r. corrected p T fmt w r \<and> m = warning_message (tag (heap w r)) p"
    by (auto simp: diagnostics_eq set_warnings_for corrected_iff)
next
  assume "\<exists>p r. corrected p T fmt w r \<and> m = warning_message (tag (heap w r)) p"
  then obtain p r where "first_exceeding p T fmt (heap w) = Some r"
      and "m = warning_message (tag (heap w r)) p"
    by (auto simp: corrected_iff)
  then show "m \<in> set (diagnostics T fmt w)"
    by (cases p) (simp_all add: diagnostics_eq set_warnings_for)
qed

section \<open>The claims\<close>

text \<open>
  A span is a formatting object of the store, named by its reference; the collection lists
  references in order. An entry of the collection that refers to the very object that was
  corrected shows the corrected value, being the same span. Each statement about
  \<open>get_position p\<close> reads as one about \<^verbatim>\<open>startIndex\<close> for \<open>p = StartIndex\<close> and as one
  about \<^verbatim>\<open>endIndex\<close> for \<open>p = EndIndex\<close>.
\<close>

subsection \<open>C1: a single span beyond the end of the text\<close>

text \<open>
  Claim C1 says that, when exactly one span has a \<^verbatim>\<open>startIndex\<close> greater than the length of
  the text, every other span is unchanged by construction. It is not so: for the text
  \<^verbatim>\<open>abc\<close> and the spans \<^verbatim>\<open>{tag:"a", startIndex:99, endIndex:1}\<close> and
  \<^verbatim>\<open>{tag:"b", startIndex:0, endIndex:99}\<close>, only the first span starts beyond the text, yet
  the second one comes out with \<^verbatim>\<open>endIndex\<close> 3 instead of 99, because the pass for
  \<^verbatim>\<open>endIndex\<close> runs as well.
\<close>

theorem C1_counterexample:
  "exceeds StartIndex (ascii ''abc'') (heap (world_of [span ''a'' 99 1, span ''b'' 0 99])) 0 \<and>
   \<not> exceeds StartIndex (ascii ''abc'') (heap (world_of [span ''a'' 99 1, span ''b'' 0 99])) 1 \<and>
   heap (world_of [span ''a'' 99 1, span ''b'' 0 99]) 1 = span ''b'' 0 99 \<and>
   heap_after (ascii ''abc'') [0, 1] (world_of [span ''a'' 99 1, span ''b'' 0 99]) 1 = span ''b'' 0 3 \<and>
   heap_after (ascii ''abc'') [0, 1] (world_of [span ''a'' 99 1, span ''b'' 0 99]) 1
     \<noteq> heap (world_of [span ''a'' 99 1, span ''b'' 0 99]) 1"
  by (simp add: run_defs ascii_def)

text \<open>
  Claim C1, amended. If exactly one span \<open>r\<close> of the collection has position \<open>p\<close> greater than
  the length of the text, then after construction position \<open>p\<close> of \<open>r\<close> equals the length of
  the text, and every other span keeps its position \<open>p\<close>, its tag and its attributes; every
  other span is unchanged altogether when no span of the collection exceeds the text at the
  other position. This holds for \<^verbatim>\<open>startIndex\<close> and for \<^verbatim>\<open>endIndex\<close>.
\<close>

theorem C1_single_offender:
  assumes "r \<in> set fmt"
      and "exceeds p T (heap w) r"
      and "\<forall>q\<in>set fmt. q \<noteq> r \<longrightarrow> \<not> exceeds p T (heap w) q"
  shows "get_position p (heap_after T fmt w r) = int (length T) \<and>
         (\<forall>q. q \<noteq> r \<longrightarrow>
              get_position p (heap_after T fmt w q) = get_position p (heap w q) \<and>
              tag (heap_after T fmt w q) = tag (heap w q) \<and>
              attributes (heap_after T fmt w q) = attributes (heap w q) \<and>
              ((\<forall>p'. \<forall>q'\<in>set fmt. p' \<noteq> p \<longrightarrow> \<not> exceeds p' T (heap w) q') \<longrightarrow>
                 heap_after T fmt w q = heap w q))"
proof -
  have fe: "first_exceeding p T fmt (heap w) = Some r"
    using assms by (rule first_exceeding_unique)
  have whole: "heap_after T fmt w q = heap w q"
    if "q \<noteq> r" and other: "\<forall>p'. \<forall>q'\<in>set fmt. p' \<noteq> p \<longrightarrow> \<not> exceeds p' T (heap w) q'" for q
  proof (rule heap_after_unchanged)
    show "first_exceeding StartIndex T fmt (heap w) \<noteq> Some q"
      using fe that(1) first_exceeding_other_None [OF other, of StartIndex]
      by (cases "StartIndex = p") auto
    show "first_exceeding EndIndex T fmt (heap w) \<noteq> Some q"
      using fe that(1) first_exceeding_other_None [OF other, of EndIndex]
      by (cases "EndIndex = p") auto
  qed
  from fe have "get_position p (heap_after T fmt w r) = int (length T)"
    by (simp add: get_position_heap_after)
  moreover from fe have "get_position p (heap_after T fmt w q) = get_position p (heap w q)"
    if "q \<noteq> r" for q
    using that by (simp add: get_position_heap_after)
  ultimately show ?thesis
    using whole by (simp add: tag_heap_after attributes_heap_after)
qed

text \<open>
  An instance: the text \<^verbatim>\<open>abc\<close>, the first span starting at 99, the second one within the
  text with \<^verbatim>\<open>endIndex\<close> equal to its length.
\<close>

theorem C1_single_offender_witness:
  "startIndex (heap_after (ascii ''abc'') [0, 1] (world_of [span ''a'' 99 1, span ''b'' 0 3]) 0) = 3 \<and>
   heap_after (ascii ''abc'') [0, 1] (world_of [span ''a'' 99 1, span ''b'' 0 3]) 1 = span ''b'' 0 3"
proof -
  let ?T = "ascii ''abc''" and ?fmt = "[0, 1 :: nat]"
  let ?w = "world_of [span ''a'' 99 1, span ''b'' 0 3]"
  have h1: "0 \<in> set ?fmt" by simp
  have h2: "exceeds StartIndex ?T (heap ?w) 0"
    by (simp add: run_defs ascii_def)
  have h3: "\<forall>q\<in>set ?fmt. q \<noteq> 0 \<longrightarrow> \<not> exceeds StartIndex ?T (heap ?w) q"
    by (simp add: run_defs ascii_def)
  have h4: "\<forall>p'. \<forall>q'\<in>set ?fmt. p' \<noteq> StartIndex \<longrightarrow> \<not> exceeds p' ?T (heap ?w) q'"
  proof (intro allI ballI impI)
    fix p' q' assume "q' \<in> set ?fmt" "p' \<noteq> StartIndex"
    then show "\<not> exceeds p' ?T (heap ?w) q'"
      by (cases p') (auto simp: run_defs ascii_def)
  qed
  have h5: "heap ?w 1 = span ''b'' 0 3"
    by (simp add: run_defs)
  have ne: "(1::nat) \<noteq> 0" by simp
  have len: "int (length ?T) = 3"
    by (simp add: ascii_def)
  note th = C1_single_offender [OF h1 h2 h3]
  from th have a: "get_position StartIndex (heap_after ?T ?fmt ?w 0) = int (length ?T)"
    by (rule conjunct1)
  from th ne h4 have b: "heap_after ?T ?fmt ?w 1 = heap ?w 1"
    by blast
  from a b h5 len show ?thesis
    by simp
qed

subsection \<open>C2: the bounds after construction\<close>

text \<open>
  Claim C2 says that after construction every span has both offsets between 0 and the length
  of the text. It is not so: a negative \<^verbatim>\<open>startIndex\<close> stays negative, and of two spans that
  start beyond the text \<^verbatim>\<open>abc\<close> the second one keeps its \<^verbatim>\<open>startIndex\<close> 77.
\<close>

theorem C2_counterexample:
  "startIndex (heap_after (ascii ''abc'') [0] (world_of [span ''a'' (- 1) 2]) 0) = - 1 \<and>
   \<not> 0 \<le> startIndex (heap_after (ascii ''abc'') [0] (world_of [span ''a'' (- 1) 2]) 0) \<and>
   startIndex (heap_after (ascii ''abc'') [0, 1] (world_of [span ''a'' 99 1, span ''b'' 77 2]) 1) = 77 \<and>
   \<not> startIndex (heap_after (ascii ''abc'') [0, 1] (world_of [span ''a'' 99 1, span ''b'' 77 2]) 1)
       \<le> int (length (ascii ''abc''))"
  by (simp add: run_defs ascii_def)

text \<open>
  Claim C2, amended. If no span of the collection has a negative offset and, for
  \<^verbatim>\<open>startIndex\<close> and for \<^verbatim>\<open>endIndex\<close> alike, at most one span of the collection exceeds the
  length of the text, then after construction every span of the collection has
  \<^verbatim>\<open>0 <= startIndex <= length(text)\<close> and \<^verbatim>\<open>0 <= endIndex <= length(text)\<close>.
\<close>

theorem C2_bounds:
  assumes nonneg: "\<forall>r\<in>set fmt. 0 \<le> startIndex (heap w r) \<and> 0 \<le> endIndex (heap w r)"
      and single: "\<forall>p. \<forall>r\<in>set fmt. \<forall>q\<in>set fmt.
                     exceeds p T (heap w) r \<and> exceeds p T (heap w) q \<longrightarrow> r = q"
  shows "\<forall>r\<in>set fmt.
           0 \<le> startIndex (heap_after T fmt w r) \<and> startIndex (heap_after T fmt w r) \<le> int (length T) \<and>
           0 \<le> endIndex (heap_after T fmt w r) \<and> endIndex (heap_after T fmt w r) \<le> int (length T)"
proof
  fix r assume r: "r \<in> set fmt"
  have bounds: "0 \<le> get_position p (heap_after T fmt w r) \<and>
                get_position p (heap_after T fmt w r) \<le> int (length T)" for p
  proof (cases "exceeds p T (heap w) r")
    case True
    with r single have "\<forall>q\<in>set fmt. q \<noteq> r \<longrightarrow> \<not> exceeds p T (heap w) q"
      by blast
    with r True have "first_exceeding p T fmt (heap w) = Some r"
      by (rule first_exceeding_unique)
    then show ?thesis
      by (simp add: get_position_heap_after)
  next
    case False
    then have "first_exceeding p T fmt (heap w) \<noteq> Some r"
      by (auto dest: first_exceeding_SomeD)
    moreover from nonneg r have "0 \<le> get_position p (heap w r)"
      by (cases p) simp_all
    ultimately show ?thesis
      using False by (simp add: get_position_heap_after exceeds_def)
  qed
  from bounds [of StartIndex] bounds [of EndIndex]
  show "0 \<le> startIndex (heap_after T fmt w r) \<and> startIndex (heap_after T fmt w r) \<le> int (length T) \<and>
        0 \<le> endIndex (heap_after T fmt w r) \<and> endIndex (heap_after T fmt w r) \<le> int (length T)"
    by simp
qed

text \<open>
  An instance: one span ends beyond the text \<^verbatim>\<open>abc\<close>, another one starts beyond it.
\<close>

theorem C2_bounds_witness:
  "0 \<le> startIndex (heap_after (ascii ''abc'') [0, 1] (world_of [span ''a'' 0 99, span ''b'' 99 3]) 0) \<and>
   startIndex (heap_after (ascii ''abc'') [0, 1] (world_of [span ''a'' 0 99, span ''b'' 99 3]) 1) \<le> 3 \<and>
   endIndex (heap_after (ascii ''abc'') [0, 1] (world_of [span ''a'' 0 99, span ''b'' 99 3]) 0) \<le> 3"
proof -
  let ?T = "ascii ''abc''" and ?fmt = "[0, 1 :: nat]"
  let ?w = "world_of [span ''a'' 0 99, span ''b'' 99 3]"
  have h1: "\<forall>r\<in>set ?fmt. 0 \<le> startIndex (heap ?w r) \<and> 0 \<le> endIndex (heap ?w r)"
    by (simp add: run_defs)
  have h2: "\<forall>p. \<forall>r\<in>set ?fmt. \<forall>q\<in>set ?fmt.
              exceeds p ?T (heap ?w) r \<and> exceeds p ?T (heap ?w) q \<longrightarrow> r = q"
  proof
    fix p show "\<forall>r\<in>set ?fmt. \<forall>q\<in>set ?fmt.
              exceeds p ?T (heap ?w) r \<and> exceeds p ?T (heap ?w) q \<longrightarrow> r = q"
      by (cases p) (simp_all add: run_defs ascii_def)
  qed
  have len: "int (length ?T) = 3"
    by (simp add: ascii_def)
  from C2_bounds [OF h1 h2] len show ?thesis
    by simp
qed

subsection \<open>C3: one correction per pass\<close>

text \<open>
  Claim C3. When several spans of the collection have a \<^verbatim>\<open>startIndex\<close> greater than the length
  of the text, construction corrects the first of them in collection order (entry \<open>i\<close>, with
  no exceeding entry before it) and no other: every other span keeps its \<^verbatim>\<open>startIndex\<close>, so
  every other exceeding span still exceeds the text afterwards. The same holds for
  \<^verbatim>\<open>endIndex\<close>.
\<close>

theorem C3_only_first_corrected:
  assumes "i < length fmt"
      and "exceeds p T (heap w) (fmt ! i)"
      and "\<forall>j<i. \<not> exceeds p T (heap w) (fmt ! j)"
  shows "get_position p (heap_after T fmt w (fmt ! i)) = int (length T) \<and>
         (\<forall>r. r \<noteq> fmt ! i \<longrightarrow>
              get_position p (heap_after T fmt w r) = get_position p (heap w r)) \<and>
         (\<forall>r. r \<noteq> fmt ! i \<and> exceeds p T (heap w) r \<longrightarrow>
              exceeds p T (heap_after T fmt w) r)"
proof -
  have fe: "first_exceeding p T fmt (heap w) = Some (fmt ! i)"
    using assms by (rule first_exceeding_least)
  then show ?thesis
    by (auto simp: get_position_heap_after exceeds_def)
qed

text \<open>
  An instance: of three spans the second and the third start beyond the text \<^verbatim>\<open>abc\<close>; the
  second is set to 3, the third keeps 77.
\<close>

theorem C3_only_first_corrected_witness:
  "startIndex (heap_after (ascii ''abc'') [0, 1, 2] (world_of [span ''a'' 1 2, span ''b'' 99 2, span ''c'' 77 3]) 1) = 3 \<and>
   startIndex (heap_after (ascii ''abc'') [0, 1, 2] (world_of [span ''a'' 1 2, span ''b'' 99 2, span ''c'' 77 3]) 2) = 77 \<and>
   exceeds StartIndex (ascii ''abc'')
     (heap_after (ascii ''abc'') [0, 1, 2] (world_of [span ''a'' 1 2, span ''b'' 99 2, span ''c'' 77 3])) 2"
proof -
  let ?T = "ascii ''abc''" and ?fmt = "[0, 1, 2 :: nat]"
  let ?w = "world_of [span ''a'' 1 2, span ''b'' 99 2, span ''c'' 77 3]"
  have h1: "1 < length ?fmt" by simp
  have h2: "exceeds StartIndex ?T (heap ?w) (?fmt ! 1)"
    by (simp add: run_defs ascii_def)
  have h3: "\<forall>j<1. \<not> exceeds StartIndex ?T (heap ?w) (?fmt ! j)"
    by (simp add: run_defs ascii_def)
  have h4: "2 \<noteq> ?fmt ! 1 \<and> exceeds StartIndex ?T (heap ?w) 2"
    by (simp add: run_defs ascii_def)
  have len: "int (length ?T) = 3" and v: "startIndex (heap ?w 2) = 77"
    by (simp_all add: ascii_def world_of_def store_of_def span_def)
  note th = C3_only_first_corrected [OF h1 h2 h3]
  from th have "get_position StartIndex (heap_after ?T ?fmt ?w (?fmt ! 1)) = int (length ?T)"
    by (rule conjunct1)
  moreover from th h4 have "get_position StartIndex (heap_after ?T ?fmt ?w 2)
      = get_position StartIndex (heap ?w 2)"
    by blast
  moreover from th h4 have "exceeds StartIndex ?T (heap_after ?T ?fmt ?w) 2"
    by blast
  ultimately show ?thesis
    using len v by simp
qed

subsection \<open>C4: offsets within bounds\<close>

text \<open>
  Claim C4. If every span of the collection has \<^verbatim>\<open>0 <= startIndex <= length(text)\<close> and
  \<^verbatim>\<open>0 <= endIndex <= length(text)\<close>, offsets equal to the length included, then construction
  returns the container of the given text and collection and leaves the world as it was: the
  spans are identical to the input and no diagnostic is emitted.
\<close>

theorem C4_noop:
  assumes "\<forall>r\<in>set fmt.
             0 \<le> startIndex (heap w r) \<and> startIndex (heap w r) \<le> int (length T) \<and>
             0 \<le> endIndex (heap w r) \<and> endIndex (heap w r) \<le> int (length T)"
  shows "TextContainer_new T fmt w = (\<lparr>text' = T, formatting = fmt\<rparr>, w) \<and>
         heap_after T fmt w = heap w \<and> diagnostics T fmt w = []"
proof -
  have none: "first_exceeding p T fmt (heap w) = None" for p
    using assms by (cases p) (auto simp: first_exceeding_None exceeds_def)
  have pass: "constrainFormatElementPositionsToEnd p \<lparr>text' = T, formatting = fmt\<rparr> w = w" for p
    by (simp add: constrain_eq none)
  have new: "TextContainer_new T fmt w = (\<lparr>text' = T, formatting = fmt\<rparr>, w)"
    by (simp add: TextContainer_new_def Let_def pass)
  then show ?thesis
    by (simp add: heap_after_def diagnostics_def console_after_def)
qed

text \<open>
  An instance: the text \<^verbatim>\<open>Hello world\<close> with two spans, the second one ending exactly at the
  length of the text.
\<close>

theorem C4_noop_witness:
  "TextContainer_new (ascii ''Hello world'') [0, 1]
       (world_of [span ''em'' 0 5, span ''strong'' 6 11])
     = (\<lparr>text' = ascii ''Hello world'', formatting = [0, 1]\<rparr>,
        world_of [span ''em'' 0 5, span ''strong'' 6 11]) \<and>
   endIndex (heap (world_of [span ''em'' 0 5, span ''strong'' 6 11]) 1)
     = int (length (ascii ''Hello world'')) \<and>
   diagnostics (ascii ''Hello world'') [0, 1] (world_of [span ''em'' 0 5, span ''strong'' 6 11]) = []"
proof -
  let ?T = "ascii ''Hello world''" and ?fmt = "[0, 1 :: nat]"
  let ?w = "world_of [span ''em'' 0 5, span ''strong'' 6 11]"
  have h: "\<forall>r\<in>set ?fmt.
             0 \<le> startIndex (heap ?w r) \<and> startIndex (heap ?w r) \<le> int (length ?T) \<and>
             0 \<le> endIndex (heap ?w r) \<and> endIndex (heap ?w r) \<le> int (length ?T)"
    by (simp add: world_of_def store_of_def span_def ascii_def)
  have e: "endIndex (heap ?w 1) = int (length ?T)"
    by (simp add: world_of_def store_of_def span_def ascii_def)
  from C4_noop [OF h] e show ?thesis
    by simp
qed

subsection \<open>C5: the two positions are corrected independently\<close>

text \<open>
  Claim C5. Which spans have their \<^verbatim>\<open>startIndex\<close> corrected is determined by the
  \<^verbatim>\<open>startIndex\<close> values of the spans of the collection alone: two worlds that agree on these
  values have the same spans corrected, whatever their \<^verbatim>\<open>endIndex\<close> values, tags and
  attributes; likewise for \<^verbatim>\<open>endIndex\<close>. And a span that is corrected at one position and
  does not exceed the text at the other one has the first position set to the length of the
  text and the other one left alone.
\<close>

theorem C5_independent:
  "((\<forall>r\<in>set fmt. get_position p (heap w1 r) = get_position p (heap w2 r)) \<longrightarrow>
      corrected p T fmt w1 = corrected p T fmt w2) \<and>
   (corrected p T fmt w r \<and> p' \<noteq> p \<and> \<not> exceeds p' T (heap w) r \<longrightarrow>
      get_position p (heap_after T fmt w r) = int (length T) \<and>
      get_position p' (heap_after T fmt w r) = get_position p' (heap w r))"
proof (intro conjI impI)
  assume same: "\<forall>r\<in>set fmt. get_position p (heap w1 r) = get_position p (heap w2 r)"
  have "first_exceeding p T fmt (heap w1) = first_exceeding p T fmt (heap w2)"
    by (rule first_exceeding_cong) (simp add: exceeds_def same)
  then show "corrected p T fmt w1 = corrected p T fmt w2"
    by (simp add: fun_eq_iff corrected_iff)
next
  assume a: "corrected p T fmt w r \<and> p' \<noteq> p \<and> \<not> exceeds p' T (heap w) r"
  then show "get_position p (heap_after T fmt w r) = int (length T)"
    by (simp add: corrected_iff get_position_heap_after)
  from a have "first_exceeding p' T fmt (heap w) \<noteq> Some r"
    by (auto dest: first_exceeding_SomeD)
  then show "get_position p' (heap_after T fmt w r) = get_position p' (heap w r)"
    by (simp add: get_position_heap_after)
qed

text \<open>
  An instance: two worlds with the same \<^verbatim>\<open>endIndex\<close> values and different \<^verbatim>\<open>startIndex\<close>
  values; in both the first span has its \<^verbatim>\<open>endIndex\<close> corrected, and in the first world its
  \<^verbatim>\<open>startIndex\<close> 1 is kept.
\<close>

theorem C5_independent_witness:
  "corrected EndIndex (ascii ''abc'') [0, 1] (world_of [span ''a'' 1 99, span ''b'' 2 3]) 0 \<and>
   corrected EndIndex (ascii ''abc'') [0, 1] (world_of [span ''a'' 77 99, span ''b'' (- 5) 3]) 0 \<and>
   \<not> corrected EndIndex (ascii ''abc'') [0, 1] (world_of [span ''a'' 77 99, span ''b'' (- 5) 3]) 1 \<and>
   endIndex (heap_after (ascii ''abc'') [0, 1] (world_of [span ''a'' 1 99, span ''b'' 2 3]) 0) = 3 \<and>
   startIndex (heap_after (ascii ''abc'') [0, 1] (world_of [span ''a'' 1 99, span ''b'' 2 3]) 0) = 1"
proof -
  let ?T = "ascii ''abc''" and ?fmt = "[0, 1 :: nat]"
  let ?w1 = "world_of [span ''a'' 1 99, span ''b'' 2 3]"
  let ?w2 = "world_of [span ''a'' 77 99, span ''b'' (- 5) 3]"
  have same: "\<forall>r\<in>set ?fmt. get_position EndIndex (heap ?w1 r) = get_position EndIndex (heap ?w2 r)"
    by (simp add: world_of_def store_of_def span_def)
  have c1: "corrected EndIndex ?T ?fmt ?w1 0"
    by (simp add: corrected_def run_defs ascii_def)
  have n1: "\<not> corrected EndIndex ?T ?fmt ?w1 1"
    by (simp add: corrected_def run_defs ascii_def)
  have ne: "StartIndex \<noteq> EndIndex \<and> \<not> exceeds StartIndex ?T (heap ?w1) 0"
    by (simp add: run_defs ascii_def)
  have len: "int (length ?T) = 3" and st: "startIndex (heap ?w1 0) = 1"
    by (simp_all add: ascii_def world_of_def store_of_def span_def)
  note th = C5_independent [of ?fmt EndIndex ?w1 ?w2 ?T ?w1 0 StartIndex]
  from th same have eq: "corrected EndIndex ?T ?fmt ?w1 = corrected EndIndex ?T ?fmt ?w2"
    by blast
  from th c1 ne have "get_position EndIndex (heap_after ?T ?fmt ?w1 0) = int (length ?T) \<and>
      get_position StartIndex (heap_after ?T ?fmt ?w1 0) = get_position StartIndex (heap ?w1 0)"
    by blast
  with c1 n1 eq len st show ?thesis
    by simp
qed

subsection \<open>C6: the diagnostics\<close>

text \<open>
  Claim C6. Construction appends its diagnostics to the console; a diagnostic is produced if
  and only if a correction occurs, one for each corrected position; each correction has its
  message and each message belongs to a correction; and the message contains the tag of the
  corrected span, the name of the corrected position (\<^verbatim>\<open>startIndex\<close> or \<^verbatim>\<open>endIndex\<close>) and
  the sentence that it has been set to the end of the text.
\<close>

theorem C6_diagnostics:
  "console_after T fmt w = console w @ diagnostics T fmt w \<and>
   (diagnostics T fmt w \<noteq> [] \<longleftrightarrow> (\<exists>p r. corrected p T fmt w r)) \<and>
   length (diagnostics T fmt w) =
     (if \<exists>r. corrected StartIndex T fmt w r then 1 else 0) +
     (if \<exists>r. corrected EndIndex T fmt w r then 1 else 0) \<and>
   (\<forall>p r. corrected p T fmt w r \<longrightarrow>
      warning_message (tag (heap_after T fmt w r)) p \<in> set (diagnostics T fmt w)) \<and>
   (\<forall>m\<in>set (diagnostics T fmt w). \<exists>p r.
      corrected p T fmt w r \<and> m = warning_message (tag (heap_after T fmt w r)) p \<and>
      sublist (tag (heap_after T fmt w r)) m \<and> sublist (position_name p) m \<and>
      sublist (ascii ''It has been set to the end of the text instead.'') m)"
proof (intro conjI)
  show "console_after T fmt w = console w @ diagnostics T fmt w"
    by (simp add: console_after_eq diagnostics_eq)
  show len: "length (diagnostics T fmt w) =
     (if \<exists>r. corrected StartIndex T fmt w r then 1 else 0) +
     (if \<exists>r. corrected EndIndex T fmt w r then 1 else 0)"
    by (simp add: diagnostics_eq length_warnings_for ex_corrected_iff)
  have "diagnostics T fmt w \<noteq> [] \<longleftrightarrow> (\<exists>m. m \<in> set (diagnostics T fmt w))"
    by (cases "diagnostics T fmt w") auto
  then show "diagnostics T fmt w \<noteq> [] \<longleftrightarrow> (\<exists>p r. corrected p T fmt w r)"
    by (auto simp: set_diagnostics)
  show "\<forall>p r. corrected p T fmt w r \<longrightarrow>
      warning_message (tag (heap_after T fmt w r)) p \<in> set (diagnostics T fmt w)"
    by (auto simp: set_diagnostics tag_heap_after)
  show "\<forall>m\<in>set (diagnostics T fmt w). \<exists>p r.
      corrected p T fmt w r \<and> m = warning_message (tag (heap_after T fmt w r)) p \<and>
      sublist (tag (heap_after T fmt w r)) m \<and> sublist (position_name p) m \<and>
      sublist (ascii ''It has been set to the end of the text instead.'') m"
  proof
    fix m assume "m \<in> set (diagnostics T fmt w)"
    then obtain p r where "corrected p T fmt w r" and "m = warning_message (tag (heap w r)) p"
      by (auto simp: set_diagnostics)
    then have "corrected p T fmt w r \<and> m = warning_message (tag (heap_after T fmt w r)) p \<and>
      sublist (tag (heap_after T fmt w r)) m \<and> sublist (position_name p) m \<and>
      sublist (ascii ''It has been set to the end of the text instead.'') m"
      by (simp add: tag_heap_after sublist_warning_message)
    then show "\<exists>p r.
      corrected p T fmt w r \<and> m = warning_message (tag (heap_after T fmt w r)) p \<and>
      sublist (tag (heap_after T fmt w r)) m \<and> sublist (position_name p) m \<and>
      sublist (ascii ''It has been set to the end of the text instead.'') m"
      by blast
  qed
qed

text \<open>
  An instance: the second span starts beyond the text \<^verbatim>\<open>abc\<close>; the one diagnostic is the
  message for its tag and \<^verbatim>\<open>startIndex\<close>.
\<close>

theorem C6_diagnostics_witness:
  "corrected StartIndex (ascii ''abc'') [0, 1] (world_of [span ''em'' 1 2, span ''a'' 99 3]) 1 \<and>
   warning_message (ascii ''a'') StartIndex
     \<in> set (diagnostics (ascii ''abc'') [0, 1] (world_of [span ''em'' 1 2, span ''a'' 99 3])) \<and>
   length (diagnostics (ascii ''abc'') [0, 1] (world_of [span ''em'' 1 2, span ''a'' 99 3])) = 1"
proof -
  let ?T = "ascii ''abc''" and ?fmt = "[0, 1 :: nat]"
  let ?w = "world_of [span ''em'' 1 2, span ''a'' 99 3]"
  have c: "corrected StartIndex ?T ?fmt ?w 1"
    by (simp add: corrected_def run_defs ascii_def)
  have n: "\<not> corrected EndIndex ?T ?fmt ?w r" for r
    by (simp add: corrected_def run_defs ascii_def)
  have t: "tag (heap_after ?T ?fmt ?w 1) = ascii ''a''"
    by (simp add: run_defs ascii_def)
  note th = C6_diagnostics [of ?T ?fmt ?w]
  from th c have "warning_message (tag (heap_after ?T ?fmt ?w 1)) StartIndex \<in> set (diagnostics ?T ?fmt ?w)"
    by blast
  moreover from th have "length (diagnostics ?T ?fmt ?w) =
     (if \<exists>r. corrected StartIndex ?T ?fmt ?w r then 1 else 0) +
     (if \<exists>r. corrected EndIndex ?T ?fmt ?w r then 1 else 0)"
    by blast
  with c n have "length (diagnostics ?T ?fmt ?w) = 1"
    by auto
  ultimately show ?thesis
    using c t by simp
qed

subsection \<open>C7: the empty text\<close>

text \<open>
  Claim C7 says that for the empty text any span with a \<^verbatim>\<open>startIndex\<close> or an \<^verbatim>\<open>endIndex\<close>
  greater than 0 has it set to 0. It is not so: of two spans with \<^verbatim>\<open>startIndex\<close> 5 and 7
  the second one keeps 7.
\<close>

theorem C7_counterexample:
  "0 < startIndex (heap (world_of [span ''a'' 5 0, span ''b'' 7 0]) 1) \<and>
   startIndex (heap_after [] [0, 1] (world_of [span ''a'' 5 0, span ''b'' 7 0]) 1) = 7 \<and>
   startIndex (heap_after [] [0, 1] (world_of [span ''a'' 5 0, span ''b'' 7 0]) 1) \<noteq> 0"
  by (simp add: run_defs)

text \<open>
  Claim C7, amended. For the empty text, the first span in collection order with a
  \<^verbatim>\<open>startIndex\<close> greater than 0 has its \<^verbatim>\<open>startIndex\<close> set to 0, and the first span with an
  \<^verbatim>\<open>endIndex\<close> greater than 0 has its \<^verbatim>\<open>endIndex\<close> set to 0.
\<close>

theorem C7_empty_text:
  assumes "i < length fmt"
      and "0 < get_position p (heap w (fmt ! i))"
      and "\<forall>j<i. \<not> 0 < get_position p (heap w (fmt ! j))"
  shows "get_position p (heap_after [] fmt w (fmt ! i)) = 0"
proof -
  have "first_exceeding p [] fmt (heap w) = Some (fmt ! i)"
    using assms by (intro first_exceeding_least) (simp_all add: exceeds_def)
  then show ?thesis
    by (simp add: get_position_heap_after)
qed

text \<open>
  An instance: the second span is the first with a positive \<^verbatim>\<open>startIndex\<close>, the first span
  is the first with a positive \<^verbatim>\<open>endIndex\<close>.
\<close>

theorem C7_empty_text_witness:
  "startIndex (heap_after [] [0, 1] (world_of [span ''a'' 0 4, span ''b'' 7 0]) 1) = 0 \<and>
   endIndex (heap_after [] [0, 1] (world_of [span ''a'' 0 4, span ''b'' 7 0]) 0) = 0"
proof -
  let ?fmt = "[0, 1 :: nat]"
  let ?w = "world_of [span ''a'' 0 4, span ''b'' 7 0]"
  have s1: "1 < length ?fmt" by simp
  have s2: "0 < get_position StartIndex (heap ?w (?fmt ! 1))"
    by (simp add: world_of_def store_of_def span_def)
  have s3: "\<forall>j<1. \<not> 0 < get_position StartIndex (heap ?w (?fmt ! j))"
    by (simp add: world_of_def store_of_def span_def)
  have e1: "0 < length ?fmt" by simp
  have e2: "0 < get_position EndIndex (heap ?w (?fmt ! 0))"
    by (simp add: world_of_def store_of_def span_def)
  have e3: "\<forall>j<0. \<not> 0 < get_position EndIndex (heap ?w (?fmt ! j))"
    by simp
  from C7_empty_text [OF s1 s2 s3] C7_empty_text [OF e1 e2 e3] show ?thesis
    by simp
qed

subsection \<open>C8: the scenario\<close>

text \<open>
  Claim C8 says that the text \<^verbatim>\<open>This text is very strong.\<close> has length 26 and that the
  \<^verbatim>\<open>endIndex\<close> 99 of the element comes out as 26. The text has 25 code units, and the
  \<^verbatim>\<open>endIndex\<close> comes out as 25.
\<close>

theorem C8_counterexample:
  "length scenario_text \<noteq> 26 \<and>
   endIndex (heap_after scenario_text [0] \<lparr>heap = store_of [scenario_strong], console = []\<rparr> 0) \<noteq> 26"
  by (simp add: run_defs scenario_text_def scenario_strong_def ascii_def)

text \<open>
  Claim C8, amended. Constructing from the text \<^verbatim>\<open>This text is very strong.\<close>, of length 25,
  and the one element \<^verbatim>\<open>{tag:"strong", startIndex:13, endIndex:99, attributes:{id:"elem-id"}}\<close>
  yields \<^verbatim>\<open>endIndex\<close> 25, the \<^verbatim>\<open>startIndex\<close> 13 unchanged, the element otherwise as it
  was, and exactly one diagnostic, which mentions \<^verbatim>\<open>strong\<close> and \<^verbatim>\<open>endIndex\<close>.
\<close>

theorem C8_scenario:
  "length scenario_text = 25 \<and>
   endIndex (heap_after scenario_text [0] \<lparr>heap = store_of [scenario_strong], console = []\<rparr> 0) = 25 \<and>
   startIndex (heap_after scenario_text [0] \<lparr>heap = store_of [scenario_strong], console = []\<rparr> 0) = 13 \<and>
   heap_after scenario_text [0] \<lparr>heap = store_of [scenario_strong], console = []\<rparr> 0
     = scenario_strong\<lparr>endIndex := 25\<rparr> \<and>
   console_after scenario_text [0] \<lparr>heap = store_of [scenario_strong], console = []\<rparr>
     = [warning_message (ascii ''strong'') EndIndex] \<and>
   warning_message (ascii ''strong'') EndIndex
     = ascii (CHR 0x27 # ''strong' element's endIndex position larger than text. It has been set to the end of the text instead.'') \<and>
   sublist (ascii ''strong'') (warning_message (ascii ''strong'') EndIndex) \<and>
   sublist (ascii ''endIndex'') (warning_message (ascii ''strong'') EndIndex)"
proof -
  have "sublist (position_name EndIndex) (warning_message (ascii ''strong'') EndIndex)"
    by (rule sublist_warning_message)
  then have "sublist (ascii ''endIndex'') (warning_message (ascii ''strong'') EndIndex)"
    by simp
  moreover have "sublist (ascii ''strong'') (warning_message (ascii ''strong'') EndIndex)"
    by (rule sublist_warning_message)
  moreover have "warning_message (ascii ''strong'') EndIndex
     = ascii (CHR 0x27 # ''strong' element's endIndex position larger than text. It has been set to the end of the text instead.'')"
    by (simp add: warning_message_def ascii_def)
  moreover have "length scenario_text = 25"
    by (simp add: scenario_text_def ascii_def)
  moreover have "heap_after scenario_text [0] \<lparr>heap = store_of [scenario_strong], console = []\<rparr> 0
     = scenario_strong\<lparr>endIndex := 25\<rparr>"
    by (simp add: run_defs scenario_text_def scenario_strong_def ascii_def)
  moreover have "console_after scenario_text [0] \<lparr>heap = store_of [scenario_strong], console = []\<rparr>
     = [warning_message (ascii ''strong'') EndIndex]"
    by (simp add: run_defs scenario_text_def scenario_strong_def ascii_def)
  ultimately show ?thesis
    by (simp add: scenario_strong_def)
qed

subsection \<open>C9: negative offsets\<close>

text \<open>
  Claim C9. Only the upper bound is checked. A negative \<^verbatim>\<open>startIndex\<close> or \<^verbatim>\<open>endIndex\<close> is the
  same after construction as before; it triggers no diagnostic, in that construction emits
  the very diagnostics it emits when the value is 0 instead; and when no offset of the
  collection is greater than the length of the text, negative ones included, construction
  emits no diagnostic and changes no span.
\<close>

theorem C9_negative_unchecked:
  assumes neg: "get_position p (heap w r) < 0"
  shows "get_position p (heap_after T fmt w r) = get_position p (heap w r) \<and>
         diagnostics T fmt (w\<lparr>heap := (heap w)(r := set_position p 0 (heap w r))\<rparr>)
           = diagnostics T fmt w \<and>
         ((\<forall>q\<in>set fmt. startIndex (heap w q) \<le> int (length T) \<and>
                         endIndex (heap w q) \<le> int (length T)) \<longrightarrow>
            diagnostics T fmt w = [] \<and> heap_after T fmt w = heap w)"
proof (intro conjI impI)
  from neg have "\<not> exceeds p T (heap w) r"
    by (simp add: exceeds_def)
  then have "first_exceeding p T fmt (heap w) \<noteq> Some r"
    by (auto dest: first_exceeding_SomeD)
  then show "get_position p (heap_after T fmt w r) = get_position p (heap w r)"
    by (simp add: get_position_heap_after)
next
  let ?h = "(heap w)(r := set_position p 0 (heap w r))"
  have ex: "exceeds p' T ?h q = exceeds p' T (heap w) q" for p' q
    using neg by (auto simp: exceeds_def get_set_position)
  have fe: "first_exceeding p' T fmt ?h = first_exceeding p' T fmt (heap w)" for p'
    by (rule first_exceeding_cong) (rule ex)
  have wf: "warnings_for p' ?h fo = warnings_for p' (heap w) fo" for p' fo
    by (cases fo) (simp_all add: warnings_for_def)
  show "diagnostics T fmt (w\<lparr>heap := ?h\<rparr>) = diagnostics T fmt w"
    by (simp add: diagnostics_eq fe wf)
next
  assume le: "\<forall>q\<in>set fmt. startIndex (heap w q) \<le> int (length T) \<and>
                         endIndex (heap w q) \<le> int (length T)"
  have none: "first_exceeding p' T fmt (heap w) = None" for p'
    using le by (cases p') (auto simp: first_exceeding_None exceeds_def)
  show "diagnostics T fmt w = []"
    by (simp add: diagnostics_eq none warnings_for_def)
  show "heap_after T fmt w = heap w"
    by (simp add: fun_eq_iff heap_after_eq none)
qed

text \<open>
  An instance: a span with the offsets -4 and -1 in the text \<^verbatim>\<open>abc\<close>.
\<close>

theorem C9_negative_unchecked_witness:
  "startIndex (heap (world_of [span ''a'' (- 4) (- 1), span ''b'' 2 3]) 0) < 0 \<and>
   startIndex (heap_after (ascii ''abc'') [0, 1] (world_of [span ''a'' (- 4) (- 1), span ''b'' 2 3]) 0) = - 4 \<and>
   diagnostics (ascii ''abc'') [0, 1] (world_of [span ''a'' (- 4) (- 1), span ''b'' 2 3]) = []"
proof -
  let ?T = "ascii ''abc''" and ?fmt = "[0, 1 :: nat]"
  let ?w = "world_of [span ''a'' (- 4) (- 1), span ''b'' 2 3]"
  have h: "get_position StartIndex (heap ?w 0) < 0"
    by (simp add: world_of_def store_of_def span_def)
  have v: "startIndex (heap ?w 0) = - 4"
    by (simp add: world_of_def store_of_def span_def)
  have le: "\<forall>q\<in>set ?fmt. startIndex (heap ?w q) \<le> int (length ?T) \<and>
                          endIndex (heap ?w q) \<le> int (length ?T)"
    by (simp add: world_of_def store_of_def span_def ascii_def)
  note th = C9_negative_unchecked [OF h, of ?T ?fmt]
  from th have "get_position StartIndex (heap_after ?T ?fmt ?w 0) = get_position StartIndex (heap ?w 0)"
    by (rule conjunct1)
  moreover from th le have "diagnostics ?T ?fmt ?w = []"
    by blast
  ultimately show ?thesis
    using v by simp
qed

subsection \<open>C10: what construction leaves alone\<close>

text \<open>
  Claim C10. The container holds the given text and the given collection, of the same length
  and in the same order; every span keeps its tag and its attributes; a span that is not in
  the collection is unchanged; at most one span has its \<^verbatim>\<open>startIndex\<close> changed and at most
  one has its \<^verbatim>\<open>endIndex\<close> changed; and a changed offset belongs to a span of the collection
  and is exactly the length of the text.
\<close>

theorem C10_frame:
  "fst (TextContainer_new T fmt w) = \<lparr>text' = T, formatting = fmt\<rparr> \<and>
   (\<forall>r. tag (heap_after T fmt w r) = tag (heap w r) \<and>
        attributes (heap_after T fmt w r) = attributes (heap w r)) \<and>
   (\<forall>r. r \<notin> set fmt \<longrightarrow> heap_after T fmt w r = heap w r) \<and>
   (\<forall>p r q. corrected p T fmt w r \<and> corrected p T fmt w q \<longrightarrow> r = q) \<and>
   (\<forall>p r. corrected p T fmt w r \<longrightarrow>
      r \<in> set fmt \<and> get_position p (heap_after T fmt w r) = int (length T))"
proof (intro conjI allI impI)
  show "fst (TextContainer_new T fmt w) = \<lparr>text' = T, formatting = fmt\<rparr>"
    by (rule fst_TextContainer_new)
next
  fix r show "tag (heap_after T fmt w r) = tag (heap w r)"
    by (rule tag_heap_after)
next
  fix r show "attributes (heap_after T fmt w r) = attributes (heap w r)"
    by (rule attributes_heap_after)
next
  fix r assume "r \<notin> set fmt"
  then have "first_exceeding p T fmt (heap w) \<noteq> Some r" for p
    by (auto dest: first_exceeding_SomeD)
  then show "heap_after T fmt w r = heap w r"
    by (intro heap_after_unchanged)
next
  fix p r q assume "corrected p T fmt w r \<and> corrected p T fmt w q"
  then show "r = q"
    by (auto simp: corrected_iff)
next
  fix p r assume c: "corrected p T fmt w r"
  then show "r \<in> set fmt"
    by (simp add: corrected_iff first_exceeding_SomeD)
  from c show "get_position p (heap_after T fmt w r) = int (length T)"
    by (simp add: corrected_iff get_position_heap_after)
qed

text \<open>
  An instance: two spans start beyond the text \<^verbatim>\<open>abc\<close>; the first has its \<^verbatim>\<open>startIndex\<close>
  changed, to 3, the second has not, and an object outside the collection is as it was.
\<close>

theorem C10_frame_witness:
  "corrected StartIndex (ascii ''abc'') [0, 1] (world_of [span ''a'' 99 1, span ''b'' 77 99]) 0 \<and>
   \<not> corrected StartIndex (ascii ''abc'') [0, 1] (world_of [span ''a'' 99 1, span ''b'' 77 99]) 1 \<and>
   startIndex (heap_after (ascii ''abc'') [0, 1] (world_of [span ''a'' 99 1, span ''b'' 77 99]) 0) = 3 \<and>
   heap_after (ascii ''abc'') [0, 1] (world_of [span ''a'' 99 1, span ''b'' 77 99]) 2
     = heap (world_of [span ''a'' 99 1, span ''b'' 77 99]) 2"
proof -
  let ?T = "ascii ''abc''" and ?fmt = "[0, 1 :: nat]"
  let ?w = "world_of [span ''a'' 99 1, span ''b'' 77 99]"
  have c: "corrected StartIndex ?T ?fmt ?w 0"
    by (simp add: corrected_def run_defs ascii_def)
  have notin: "2 \<notin> set ?fmt" by simp
  have ne: "(1::nat) \<noteq> 0" by simp
  have len: "int (length ?T) = 3"
    by (simp add: ascii_def)
  note th = C10_frame [of ?T ?fmt ?w]
  from th have "\<forall>p r q. corrected p ?T ?fmt ?w r \<and> corrected p ?T ?fmt ?w q \<longrightarrow> r = q"
    by blast
  with c ne have "\<not> corrected StartIndex ?T ?fmt ?w 1"
    by metis
  moreover from th c have "get_position StartIndex (heap_after ?T ?fmt ?w 0) = int (length ?T)"
    by blast
  moreover from th notin have "heap_after ?T ?fmt ?w 2 = heap ?w 2"
    by blast
  ultimately show ?thesis
    using c len by simp
qed

end
